theory Spec2Isabelle
  imports Main "HOL-Library.AList" "HOL-Library.Char_ord" "HOL-Library.List_Lexorder"
    "HOL-Library.Product_Lexorder"
begin

section \<open>Footprint cache of the isucon5-qualify Go web application\<close>

text \<open>
  The development embeds the footprint cache code of \<^verbatim>\<open>seed.go\<close> (the seeding tool:
  \<^verbatim>\<open>InitializeFootprints\<close>, \<^verbatim>\<open>LoadRedisAof\<close>) and of \<^verbatim>\<open>app.go\<close> (the web application:
  \<^verbatim>\<open>AddFootprintCache\<close>, \<^verbatim>\<open>FetchFootprintsCache\<close>, \<^verbatim>\<open>LoadRedisAof\<close>, \<^verbatim>\<open>GetInitialize\<close>).
  In the code \<^verbatim>\<open>UserID\<close> is the visited profile and \<^verbatim>\<open>OwnerID\<close> is the visitor
  (\<^verbatim>\<open>markFootprint\<close> inserts \<^verbatim>\<open>(user_id, owner_id) = (id, user.ID)\<close>).

  The Redis server, the MySQL server and the Go libraries are not part of the repository.
  They are modelled as follows, and every command sent to a server is taken to be answered:
  \<^item> a \<^verbatim>\<open>time.Time\<close> is the instant it denotes, in nanoseconds since the Unix epoch, an
    unbounded integer; \<^verbatim>\<open>UnixNano\<close> reduces it to a signed 64-bit integer as Go does;
  \<^item> the process runs in UTC (the \<^verbatim>\<open>golang:1.9\<close> image of \<^verbatim>\<open>Dockerfile-golang\<close> sets no
    zone), so that \<^verbatim>\<open>loc=Local\<close> is UTC;
  \<^item> a Redis sorted set is a list of (member, score) pairs with distinct members;
    \<^verbatim>\<open>ZRANGE\<close> ranks it by score and then by the bytes of the member; scores are kept
    as exact integers. Redis stores them as doubles, which round a score of this size to a
    multiple of 256: timestamps of whole seconds, as the \<^verbatim>\<open>footprints\<close> table holds them,
    keep their order.
\<close>

subsection \<open>Times\<close>

type_synonym time = int

definition time_Unix :: "int \<Rightarrow> int \<Rightarrow> time" where
  \<comment> \<open>\<^verbatim>\<open>time.Unix(sec, nsec)\<close>\<close>
  "time_Unix sec nsec = sec * 1000000000 + nsec"

definition int64 :: "int \<Rightarrow> int" where
  \<comment> \<open>the value of an integer expression in Go's \<^verbatim>\<open>int64\<close>: two's complement wrap-around\<close>
  "int64 x = (x + 9223372036854775808) mod 18446744073709551616 - 9223372036854775808"

definition UnixNano :: "time \<Rightarrow> int" where
  \<comment> \<open>\<^verbatim>\<open>t.UnixNano()\<close>: seconds times \<open>10\<^sup>9\<close> plus nanoseconds, computed in \<^verbatim>\<open>int64\<close>\<close>
  "UnixNano t = int64 t"

definition zero_Time :: time where
  \<comment> \<open>\<^verbatim>\<open>time.Time{}\<close>, January 1 of year 1, 00:00:00 UTC\<close>
  "zero_Time = time_Unix (- 62135596800) 0"

definition date_JST :: "time \<Rightarrow> time" where
  \<comment> \<open>\<^verbatim>\<open>time.Date(t.Year(), t.Month(), t.Day(), 0, 0, 0, 0, jst)\<close> with
     \<^verbatim>\<open>jst = time.FixedZone("Asia/Tokyo", 9*60*60)\<close>: midnight of the (UTC) calendar day of
     \<open>t\<close>, read as a wall clock time nine hours east of UTC\<close>
  "date_JST t = (t div 86400000000000) * 86400000000000 - 9 * 60 * 60 * 1000000000"

subsection \<open>The \<^verbatim>\<open>Footprint\<close> struct and its JSON encoding\<close>

record Footprint =
  UserID :: int
  OwnerID :: int
  CreatedAt :: time
  UpdatedAt :: time

definition zero_Footprint :: Footprint where
  \<comment> \<open>\<^verbatim>\<open>Footprint{}\<close>\<close>
  "zero_Footprint = \<lparr>UserID = 0, OwnerID = 0, CreatedAt = zero_Time, UpdatedAt = zero_Time\<rparr>"

datatype FootprintGroup = FootprintGroup int int

definition group_of :: "Footprint \<Rightarrow> FootprintGroup" where
  \<comment> \<open>\<^verbatim>\<open>FootprintGroup{UserID: fp.UserID, OwnerID: fp.OwnerID}\<close>\<close>
  "group_of fp = FootprintGroup (UserID fp) (OwnerID fp)"

datatype error =
    MarshalerError
  | SyntaxError
  | Fatal string

text \<open>
  A member of a sorted set is a byte string. \<open>Json fp\<close> stands for the bytes that
  \<^verbatim>\<open>json.Marshal\<close> produces for \<open>fp\<close>, \<open>Raw s\<close> for bytes \<open>s\<close> that are not JSON, which
  \<^verbatim>\<open>json.Unmarshal\<close> rejects before it touches its target.
\<close>

datatype member = Json Footprint | Raw string

definition marshalable :: "time \<Rightarrow> bool" where
  \<comment> \<open>\<^verbatim>\<open>Time.MarshalJSON\<close> fails unless the year lies in \<open>[0, 9999]\<close>: the instants from
     0000-01-01T00:00:00Z up to, not including, 10000-01-01T00:00:00Z\<close>
  "marshalable t \<longleftrightarrow> - 62167219200 * 1000000000 \<le> t \<and> t < 253402300800 * 1000000000"

definition json_Marshal :: "Footprint \<Rightarrow> error + member" where
  "json_Marshal fp =
     (if marshalable (CreatedAt fp) \<and> marshalable (UpdatedAt fp) then Inr (Json fp)
      else Inl MarshalerError)"

fun json_Unmarshal :: "member \<Rightarrow> Footprint \<Rightarrow> Footprint \<times> error option" where
  \<comment> \<open>the target after the call, and the error returned\<close>
  "json_Unmarshal (Json v) fp = (v, None)"
| "json_Unmarshal (Raw s) fp = (fp, Some SyntaxError)"

subsection \<open>The bytes of a member\<close>

function digits :: "int \<Rightarrow> string" where
  \<comment> \<open>the decimal digits of a number that is not negative\<close>
  "digits n =
     (if n < 10 then [char_of (48 + n)] else digits (n div 10) @ [char_of (48 + n mod 10)])"
  by pat_completeness auto
termination
  by (relation "measure nat") auto

declare digits.simps [simp del]

definition itoa :: "int \<Rightarrow> string" where
  \<comment> \<open>an \<^verbatim>\<open>int\<close> as \<^verbatim>\<open>encoding/json\<close> prints it\<close>
  "itoa i = (if i < 0 then CHR ''-'' # digits (- i) else digits i)"

definition pad :: "nat \<Rightarrow> string \<Rightarrow> string" where
  "pad k s = replicate (k - length s) CHR ''0'' @ s"

definition civil :: "int \<Rightarrow> int \<times> int \<times> int" where
  \<comment> \<open>year, month and day of the proleptic Gregorian calendar, from days since 1970-01-01\<close>
  "civil days =
     (let z = days + 719468;
          era = z div 146097;
          doe = z - era * 146097;
          yoe = (doe - doe div 1460 + doe div 36524 - doe div 146096) div 365;
          doy = doe - (365 * yoe + yoe div 4 - yoe div 100);
          mp = (5 * doy + 2) div 153;
          d = doy - (153 * mp + 2) div 5 + 1;
          m = (if mp < 10 then mp + 3 else mp - 9);
          y = yoe + era * 400 + (if m \<le> 2 then 1 else 0)
      in (y, m, d))"

definition fraction :: "int \<Rightarrow> string" where
  \<comment> \<open>the \<^verbatim>\<open>.999999999\<close> of the layout: the nanoseconds without trailing zeros, nothing for 0\<close>
  "fraction ns =
     (if ns = 0 then []
      else CHR ''.'' # rev (dropWhile (\<lambda>c. c = CHR ''0'') (rev (pad 9 (digits ns)))))"

definition RFC3339Nano :: "time \<Rightarrow> string" where
  \<comment> \<open>\<^verbatim>\<open>t.Format(time.RFC3339Nano)\<close> of a time in UTC\<close>
  "RFC3339Nano t =
     (let secs = t div 1000000000;
          ns = t mod 1000000000;
          sod = secs mod 86400;
          (y, m, d) = civil (secs div 86400)
      in pad 4 (itoa y) @ ''-'' @ pad 2 (itoa m) @ ''-'' @ pad 2 (itoa d) @ ''T''
         @ pad 2 (itoa (sod div 3600)) @ '':'' @ pad 2 (itoa (sod mod 3600 div 60)) @ '':''
         @ pad 2 (itoa (sod mod 60)) @ fraction ns @ ''Z'')"

definition quoted :: "string \<Rightarrow> string" where
  "quoted s = [CHR 0x22] @ s @ [CHR 0x22]"

fun bytes :: "member \<Rightarrow> string" where
  "bytes (Json fp) =
     ''{'' @ quoted ''user_id'' @ '':'' @ itoa (UserID fp) @ '',''
       @ quoted ''owner_id'' @ '':'' @ itoa (OwnerID fp) @ '',''
       @ quoted ''created_at'' @ '':'' @ quoted (RFC3339Nano (CreatedAt fp)) @ '',''
       @ quoted ''updated_at'' @ '':'' @ quoted (RFC3339Nano (UpdatedAt fp)) @ ''}''"
| "bytes (Raw s) = s"

subsection \<open>Redis sorted sets\<close>

type_synonym zset = "(member \<times> int) list"

text \<open>The sorted set stored under the key \<^verbatim>\<open>footprints:user_id:<n>\<close>, for every \<open>n\<close>.\<close>

type_synonym cache = "int \<Rightarrow> zset"

definition flushall :: cache where
  "flushall = (\<lambda>_. [])"

definition ZADD :: "cache \<Rightarrow> int \<Rightarrow> int \<Rightarrow> member \<Rightarrow> cache" where
  \<comment> \<open>adds the member, or changes the score of a member that is there\<close>
  "ZADD c key score m = c(key := AList.update m score (c key))"

definition ranked :: "zset \<Rightarrow> member list" where
  \<comment> \<open>members by ascending score, equal scores by ascending bytes\<close>
  "ranked z = map fst (sort_key (\<lambda>(m, s). (s, bytes m)) z)"

definition ZRANGE :: "zset \<Rightarrow> int \<Rightarrow> int \<Rightarrow> member list" where
  \<comment> \<open>the members of rank \<open>start\<close> to \<open>stop\<close>, both included; a negative index counts from
     the end. The index arithmetic is that of the Redis server.\<close>
  "ZRANGE z start stop =
     (let llen = int (length z);
          start1 = (if start < 0 then llen + start else start);
          stop1 = (if stop < 0 then llen + stop else stop);
          start2 = (if start1 < 0 then 0 else start1)
      in if start2 > stop1 \<or> start2 \<ge> llen then []
         else let stop2 = (if stop1 \<ge> llen then llen - 1 else stop1)
              in take (nat (stop2 - start2 + 1)) (drop (nat start2) (ranked z)))"

subsection \<open>\<^verbatim>\<open>InitializeFootprints\<close> (seed.go)\<close>

definition at_group :: "(FootprintGroup \<rightharpoonup> time) \<Rightarrow> FootprintGroup \<Rightarrow> time" where
  \<comment> \<open>\<^verbatim>\<open>maxCreatedAt[group]\<close>: the zero value for a key that is not in the map\<close>
  "at_group m g = (case m g of None \<Rightarrow> zero_Time | Some t \<Rightarrow> t)"

fun scan_rows :: "(FootprintGroup \<rightharpoonup> time) \<Rightarrow> Footprint list \<Rightarrow> (FootprintGroup \<rightharpoonup> time)" where
  \<comment> \<open>the loop over \<^verbatim>\<open>rows\<close>: the map \<^verbatim>\<open>maxCreatedAt\<close> (\<^verbatim>\<open>fps\<close> is the list of the rows)\<close>
  "scan_rows maxCreatedAt [] = maxCreatedAt"
| "scan_rows maxCreatedAt (fp # rows) =
     scan_rows
       (if UnixNano (CreatedAt fp) > UnixNano (at_group maxCreatedAt (group_of fp))
        then maxCreatedAt(group_of fp \<mapsto> CreatedAt fp) else maxCreatedAt)
       rows"

fun write_groups ::
  "(FootprintGroup \<rightharpoonup> time) \<Rightarrow> (FootprintGroup \<Rightarrow> bool) \<Rightarrow> cache \<Rightarrow> Footprint list \<Rightarrow> error + cache"
where
  \<comment> \<open>the loop over \<^verbatim>\<open>fps\<close>\<close>
  "write_groups maxCreatedAt isNotRequired c [] = Inr c"
| "write_groups maxCreatedAt isNotRequired c (fp # fps) =
     (if isNotRequired (group_of fp) then write_groups maxCreatedAt isNotRequired c fps
      else
        let tmpFp = \<lparr>UserID = UserID fp, OwnerID = OwnerID fp,
                     CreatedAt = at_group maxCreatedAt (group_of fp),
                     UpdatedAt = at_group maxCreatedAt (group_of fp)\<rparr>
        in case json_Marshal tmpFp of
             Inl err \<Rightarrow> Inl (Fatal ''Can not marshal footprint to json.'')
           | Inr tmpFpJson \<Rightarrow>
               write_groups maxCreatedAt (isNotRequired(group_of fp := True))
                 (ZADD c (UserID tmpFp) (int64 (- UnixNano (CreatedAt tmpFp))) tmpFpJson) fps)"

definition InitializeFootprints :: "Footprint list \<Rightarrow> cache \<Rightarrow> error + cache" where
  \<comment> \<open>\<open>rows\<close> is the answer to \<^verbatim>\<open>SELECT user_id, owner_id, created_at FROM footprints\<close>\<close>
  "InitializeFootprints rows c = write_groups (scan_rows Map.empty rows) (\<lambda>_. False) c rows"

subsection \<open>\<^verbatim>\<open>AddFootprintCache\<close> and \<^verbatim>\<open>FetchFootprintsCache\<close> (app.go)\<close>

definition AddFootprintCache :: "Footprint \<Rightarrow> cache \<Rightarrow> error + cache" where
  "AddFootprintCache footprint c =
     (let fps = ZRANGE (c (UserID footprint)) 0 (- 1);
          maxCreatedAt =
            foldl (\<lambda>mx fpJson.
                     let fp = fst (json_Unmarshal fpJson zero_Footprint)
                     in if OwnerID fp = OwnerID footprint \<and> UnixNano (CreatedAt fp) > mx
                        then UnixNano (CreatedAt fp) else mx)
                  (UnixNano (CreatedAt footprint)) fps;
          footprint' = footprint\<lparr>CreatedAt := time_Unix 0 maxCreatedAt,
                                  UpdatedAt := time_Unix maxCreatedAt 0\<rparr>
      in case json_Marshal footprint' of
           Inl err \<Rightarrow> Inl (Fatal ''Failed to marshalize footprint'')
         | Inr footprintJson \<Rightarrow>
             Inr (ZADD c (UserID footprint') (int64 (- maxCreatedAt)) footprintJson))"

definition FetchFootprintsCache :: "cache \<Rightarrow> int \<Rightarrow> int \<Rightarrow> Footprint list" where
  "FetchFootprintsCache c userId limit =
     map (\<lambda>fpJson.
            let fp = fst (json_Unmarshal fpJson zero_Footprint)
            in fp\<lparr>CreatedAt := date_JST (CreatedAt fp)\<rparr>)
         (ZRANGE (c userId) 0 (limit - 1))"

fun applyVisits :: "cache \<Rightarrow> Footprint list \<Rightarrow> error + cache" where
  \<comment> \<open>one call of \<^verbatim>\<open>AddFootprintCache\<close> for each record, in the order of the list;
     \<^verbatim>\<open>log.Fatalf\<close> ends the process, and the calls with it\<close>
  "applyVisits c [] = Inr c"
| "applyVisits c (fp # fps) =
     (case AddFootprintCache fp c of Inl err \<Rightarrow> Inl err | Inr c' \<Rightarrow> applyVisits c' fps)"

subsection \<open>\<^verbatim>\<open>LoadRedisAof\<close> (seed.go and app.go) and \<^verbatim>\<open>GetInitialize\<close> (app.go)\<close>

text \<open>
  The append-only file holds the commands that the Redis server logged; for the footprint
  cache these are the \<^verbatim>\<open>ZADD\<close> commands. \<^verbatim>\<open>redis-cli --pipe\<close> sends them to the server
  in the order of the file.
\<close>

datatype redis_command = Zadd int int member

fun apply_command :: "cache \<Rightarrow> redis_command \<Rightarrow> cache" where
  "apply_command c (Zadd key score m) = ZADD c key score m"

record host =
  redis :: cache
  aof :: "redis_command list option"
    \<comment> \<open>\<^verbatim>\<open>/var/lib/redis/appendonly.aof\<close>; \<open>None\<close> when \<^verbatim>\<open>os.Stat\<close> returns an error\<close>
  flushall_fails :: bool
    \<comment> \<open>\<^verbatim>\<open>redis-cli flushall\<close> ends with an error\<close>
  pipe_fails :: bool
    \<comment> \<open>\<^verbatim>\<open>redis-cli --pipe\<close> ends with an error\<close>

definition replay :: "host \<Rightarrow> redis_command list \<Rightarrow> error + host" where
  \<comment> \<open>the branch \<^verbatim>\<open>err == nil\<close> of both versions of \<^verbatim>\<open>LoadRedisAof\<close>\<close>
  "replay h log =
     (if pipe_fails h then Inl (Fatal ''Failed to load aof'')
      else Inr (h\<lparr>redis := foldl apply_command (redis h) log\<rparr>))"

definition seed_LoadRedisAof :: "host \<Rightarrow> error + host" where
  \<comment> \<open>\<^verbatim>\<open>LoadRedisAof\<close> of seed.go\<close>
  "seed_LoadRedisAof h =
     (if flushall_fails h then Inl (Fatal ''Failed to flushall redis caches.'')
      else let h1 = h\<lparr>redis := flushall\<rparr>
           in case aof h1 of
                Some log \<Rightarrow> replay h1 log
              | None \<Rightarrow> Inl (Fatal ''appendonly.aof isn't exists.''))"

definition LoadRedisAof :: "host \<Rightarrow> error + host" where
  \<comment> \<open>\<^verbatim>\<open>LoadRedisAof\<close> of app.go, which does not flush\<close>
  "LoadRedisAof h =
     (case aof h of
        Some log \<Rightarrow> replay h log
      | None \<Rightarrow> Inl (Fatal ''appendonly.aof isn't exists.''))"

definition GetInitialize :: "(string \<Rightarrow> string) \<Rightarrow> host \<Rightarrow> error + host" where
  \<comment> \<open>the handler of \<^verbatim>\<open>/initialize\<close>, without its SQL statements, which do not touch the
     cache; \<open>getenv\<close> is \<^verbatim>\<open>os.Getenv\<close>, the empty string for a variable that is not set\<close>
  "GetInitialize getenv h =
     (let loadAof = getenv ''ISUCON5_REDIS_LOAD_AOF''
      in if loadAof = [] then LoadRedisAof h else Inr h)"

subsection \<open>The words of the specification\<close>

text \<open>
  The specification speaks of the profile's view, a sequence of canonical visits (visitor,
  last visit). In the code the view of profile \<open>p\<close> is the sorted set under its key, read in
  rank order and decoded as \<^verbatim>\<open>AddFootprintCache\<close> and \<^verbatim>\<open>FetchFootprintsCache\<close> decode
  it; the visitor is \<^verbatim>\<open>OwnerID\<close> and the last visit is \<^verbatim>\<open>UpdatedAt\<close> (the SQL that the cache
  replaces selects \<^verbatim>\<open>MAX(created_at) AS updated\<close> into it). The stored \<^verbatim>\<open>CreatedAt\<close> holds
  the same instant until \<^verbatim>\<open>FetchFootprintsCache\<close> cuts it down to its day.
\<close>

definition unmarshalled :: "member \<Rightarrow> Footprint" where
  \<comment> \<open>\<^verbatim>\<open>fp := Footprint{}; json.Unmarshal(fpJson, &fp)\<close>, the error dropped as the code drops it\<close>
  "unmarshalled fpJson = fst (json_Unmarshal fpJson zero_Footprint)"

definition view :: "cache \<Rightarrow> int \<Rightarrow> Footprint list" where
  "view c p = map unmarshalled (ZRANGE (c p) 0 (- 1))"

definition visit :: "Footprint \<Rightarrow> int \<times> time" where
  "visit fp = (OwnerID fp, UpdatedAt fp)"

definition visitors :: "Footprint list \<Rightarrow> int \<Rightarrow> int set" where
  \<comment> \<open>the distinct visitors recorded for profile \<open>p\<close>\<close>
  "visitors rows p = set (map OwnerID (filter (\<lambda>r. UserID r = p) rows))"

definition last_visit :: "Footprint list \<Rightarrow> int \<Rightarrow> int \<Rightarrow> time" where
  \<comment> \<open>the maximum \<^verbatim>\<open>occurredAt\<close> over the records of the pair (profile, visitor)\<close>
  "last_visit rows p v = Max (set (map CreatedAt (filter (\<lambda>r. UserID r = p \<and> OwnerID r = v) rows)))"

definition canonical_member :: "Footprint list \<Rightarrow> int \<Rightarrow> int \<Rightarrow> member" where
  \<comment> \<open>the member that holds the canonical visit of visitor \<open>v\<close> to profile \<open>p\<close>\<close>
  "canonical_member rows p v =
     Json \<lparr>UserID = p, OwnerID = v, CreatedAt = last_visit rows p v,
           UpdatedAt = last_visit rows p v\<rparr>"

definition scanned :: "int \<Rightarrow> int \<Rightarrow> time \<Rightarrow> Footprint" where
  \<comment> \<open>the record (profile, visitor, occurredAt) as \<^verbatim>\<open>rows.Scan\<close> fills a \<^verbatim>\<open>Footprint{}\<close>\<close>
  "scanned p v t = \<lparr>UserID = p, OwnerID = v, CreatedAt = t, UpdatedAt = zero_Time\<rparr>"

definition timestamp_ok :: "time \<Rightarrow> bool" where
  \<comment> \<open>an instant after 1754-08-30T22:43:41.128654848Z, which is what \<^verbatim>\<open>UnixNano\<close> makes of the
     zero time, and before 2262-04-11T23:47:16.854775808Z, where \<^verbatim>\<open>UnixNano\<close> wraps around\<close>
  "timestamp_ok t \<longleftrightarrow> - 6795364578871345152 < t \<and> t < 9223372036854775808"

definition ZSCORE :: "zset \<Rightarrow> member \<Rightarrow> int option" where
  \<comment> \<open>the score of a member, as the Redis command of this name answers\<close>
  "ZSCORE z m = map_of z m"

subsection \<open>Auxiliary definitions of the proofs\<close>

fun omax :: "time option \<Rightarrow> time list \<Rightarrow> time option" where
  "omax a [] = a"
| "omax a (t # ts) = omax (Some (case a of None \<Rightarrow> t | Some u \<Rightarrow> max u t)) ts"

definition canonical :: "(FootprintGroup \<rightharpoonup> time) \<Rightarrow> Footprint \<Rightarrow> Footprint" where
  \<comment> \<open>\<^verbatim>\<open>tmpFp\<close> of \<^verbatim>\<open>InitializeFootprints\<close>\<close>
  "canonical m fp = \<lparr>UserID = UserID fp, OwnerID = OwnerID fp,
       CreatedAt = at_group m (group_of fp), UpdatedAt = at_group m (group_of fp)\<rparr>"

definition fresh ::
  "(FootprintGroup \<rightharpoonup> time) \<Rightarrow> (FootprintGroup \<Rightarrow> bool) \<Rightarrow> Footprint list \<Rightarrow> int \<Rightarrow> member \<Rightarrow> bool"
where
  \<comment> \<open>the members that the loop over \<^verbatim>\<open>fps\<close> writes under the key of \<open>p\<close>\<close>
  "fresh m seen fps p x \<longleftrightarrow>
     (\<exists>r\<in>set fps. \<not> seen (group_of r) \<and> UserID r = p \<and> x = Json (canonical m r))"

section \<open>Times in range\<close>

lemma int64_id: "- 9223372036854775808 \<le> x \<Longrightarrow> x < 9223372036854775808 \<Longrightarrow> int64 x = x"
  by (simp add: int64_def)

lemma UnixNano_zero_Time: "UnixNano zero_Time = - 6795364578871345152"
  by (simp add: UnixNano_def zero_Time_def time_Unix_def int64_def)

lemma UnixNano_ok: "timestamp_ok t \<Longrightarrow> UnixNano t = t"
  by (simp add: UnixNano_def timestamp_ok_def int64_id)

lemma marshalable_ok: "timestamp_ok t \<Longrightarrow> marshalable t"
  by (simp add: marshalable_def timestamp_ok_def)

lemma score_ok: "timestamp_ok t \<Longrightarrow> int64 (- UnixNano t) = - t"
  by (simp add: UnixNano_ok) (simp add: timestamp_ok_def int64_id)

lemma year_bounds:
  "civil (- 62167219200 div 86400) = (0, 1, 1)
   \<and> civil ((- 62167219200 - 1) div 86400) = (- 1, 12, 31)
   \<and> civil ((253402300800 - 1) div 86400) = (9999, 12, 31)
   \<and> civil (253402300800 div 86400) = (10000, 1, 1)"
  by code_simp

lemma RFC3339Nano_examples:
  "RFC3339Nano zero_Time = ''0001-01-01T00:00:00Z''
   \<and> RFC3339Nano 100 = ''1970-01-01T00:00:00.0000001Z''
   \<and> RFC3339Nano 1443225600000000000 = ''2015-09-26T00:00:00Z''"
  by code_simp

section \<open>Sorted sets\<close>

lemma length_ranked: "length (ranked z) = length z"
  by (simp add: ranked_def)

lemma set_ranked: "set (ranked z) = fst ` set z"
  by (simp add: ranked_def)

lemma distinct_ranked: "distinct (map fst z) \<Longrightarrow> distinct (ranked z)"
  by (simp add: ranked_def distinct_map)

lemma ZRANGE_all: "ZRANGE z 0 (- 1) = ranked z"
  by (cases "z = []") (auto simp: ZRANGE_def Let_def length_ranked ranked_def)

lemma ZRANGE_slice: "\<exists>i n. ZRANGE z start stop = take n (drop i (ranked z))"
proof -
  define llen where "llen = int (length z)"
  define start1 where "start1 = (if start < 0 then llen + start else start)"
  define stop1 where "stop1 = (if stop < 0 then llen + stop else stop)"
  define start2 where "start2 = (if start1 < 0 then 0 else start1)"
  define stop2 where "stop2 = (if stop1 \<ge> llen then llen - 1 else stop1)"
  have "ZRANGE z start stop =
          (if start2 > stop1 \<or> start2 \<ge> llen then []
           else take (nat (stop2 - start2 + 1)) (drop (nat start2) (ranked z)))"
    unfolding ZRANGE_def Let_def llen_def start1_def stop1_def start2_def stop2_def ..
  moreover have "[] = take 0 (drop 0 (ranked z))" by simp
  ultimately show ?thesis
    by (cases "start2 > stop1 \<or> start2 \<ge> llen")
      (simp only: if_True, blast, simp only: if_False, blast)
qed

lemma length_ZRANGE_limit:
  "1 \<le> limit \<Longrightarrow> length (ZRANGE z 0 (limit - 1)) = min (nat limit) (length z)"
  by (auto simp: ZRANGE_def Let_def ranked_def)

lemma length_ZRANGE_le: "length (ZRANGE z start stop) \<le> length z"
  using ZRANGE_slice[of z start stop] by (auto simp: ranked_def)

lemma map_of_ZADD:
  "map_of (ZADD c key score m p) x =
     (if p = key \<and> x = m then Some score else map_of (c p) x)"
  by (simp add: ZADD_def update_conv')

lemma distinct_ZADD: "distinct (map fst (c p)) \<Longrightarrow> distinct (map fst (ZADD c key score m p))"
  by (auto simp: ZADD_def distinct_update)

lemma unmarshalled_Json: "unmarshalled (Json fp) = fp"
  by (simp add: unmarshalled_def)


section \<open>The two loops of \<^verbatim>\<open>InitializeFootprints\<close>\<close>

lemma omax_Some: "omax (Some u) ts = Some (Max (insert u (set ts)))"
proof (induction ts arbitrary: u)
  case Nil
  show ?case by simp
next
  case (Cons t ts)
  have "Max (insert (max u t) (set ts)) = Max (insert u (insert t (set ts)))"
  proof (cases "set ts = {}")
    case True
    then show ?thesis by simp
  next
    case False
    then show ?thesis by (simp add: max.assoc)
  qed
  with Cons show ?case by simp
qed

lemma omax_None: "omax None ts = (if ts = [] then None else Some (Max (set ts)))"
  by (cases ts) (simp_all add: omax_Some)

lemma scan_rows_omax:
  assumes "\<forall>r\<in>set rows. timestamp_ok (CreatedAt r)"
    and "\<forall>g t. acc g = Some t \<longrightarrow> timestamp_ok t"
  shows "scan_rows acc rows g = omax (acc g) (map CreatedAt (filter (\<lambda>r. group_of r = g) rows))"
  using assms
proof (induction rows arbitrary: acc)
  case Nil
  show ?case by simp
next
  case (Cons r rows)
  let ?acc = "if UnixNano (CreatedAt r) > UnixNano (at_group acc (group_of r))
        then acc(group_of r \<mapsto> CreatedAt r) else acc"
  have ok: "timestamp_ok (CreatedAt r)" using Cons.prems(1) by simp
  have inv: "\<forall>g t. ?acc g = Some t \<longrightarrow> timestamp_ok t"
    using Cons.prems(2) ok by auto
  have IH: "scan_rows ?acc rows g = omax (?acc g) (map CreatedAt (filter (\<lambda>r. group_of r = g) rows))"
    using Cons.IH[OF _ inv] Cons.prems(1) by simp
  have step: "?acc g = Some (case acc g of None \<Rightarrow> CreatedAt r | Some u \<Rightarrow> max u (CreatedAt r))"
    if g: "group_of r = g"
  proof (cases "acc g")
    case None
    with g ok show ?thesis
      by (simp add: at_group_def UnixNano_zero_Time UnixNano_ok) (simp add: timestamp_ok_def)
  next
    case (Some u)
    with Cons.prems(2) have "timestamp_ok u" by simp
    with Some ok g show ?thesis
      by (auto simp add: at_group_def UnixNano_ok max_def)
  qed
  show ?case
  proof (cases "group_of r = g")
    case True
    then show ?thesis using IH step by simp
  next
    case False
    then have "?acc g = acc g" by auto
    with False IH show ?thesis by simp
  qed
qed

lemma group_of_eq: "group_of r = FootprintGroup p v \<longleftrightarrow> UserID r = p \<and> OwnerID r = v"
  by (simp add: group_of_def)

lemma scan_rows_last_visit:
  assumes "\<forall>r\<in>set rows. timestamp_ok (CreatedAt r)" and "v \<in> visitors rows p"
  shows "at_group (scan_rows Map.empty rows) (FootprintGroup p v) = last_visit rows p v"
proof -
  from assms(2) have ne: "filter (\<lambda>r. UserID r = p \<and> OwnerID r = v) rows \<noteq> []"
    by (auto simp: visitors_def filter_empty_conv)
  have "scan_rows Map.empty rows (FootprintGroup p v) =
          omax None (map CreatedAt (filter (\<lambda>r. group_of r = FootprintGroup p v) rows))"
    using scan_rows_omax[OF assms(1), of Map.empty] by simp
  with ne show ?thesis
    by (simp add: omax_None group_of_eq at_group_def last_visit_def)
qed

lemma last_visit_ok:
  assumes "\<forall>r\<in>set rows. timestamp_ok (CreatedAt r)" and "v \<in> visitors rows p"
  shows "timestamp_ok (last_visit rows p v)"
proof -
  let ?ts = "set (map CreatedAt (filter (\<lambda>r. UserID r = p \<and> OwnerID r = v) rows))"
  from assms(2) have "?ts \<noteq> {}" by (auto simp: visitors_def)
  then have "Max ?ts \<in> ?ts" by (intro Max_in) simp_all
  with assms(1) show ?thesis unfolding last_visit_def by auto
qed

lemma fresh_Nil: "fresh m seen [] p x = False"
  by (simp add: fresh_def)

lemma fresh_seen: "seen (group_of r) \<Longrightarrow> fresh m seen (r # fps) p x = fresh m seen fps p x"
  by (simp add: fresh_def)

lemma canonical_group: "group_of r' = group_of r \<Longrightarrow> canonical m r' = canonical m r"
  by (simp add: canonical_def group_of_def)

lemma fresh_unseen:
  assumes "\<not> seen (group_of r)"
  shows "fresh m seen (r # fps) p x \<longleftrightarrow>
           (UserID r = p \<and> x = Json (canonical m r)) \<or> fresh m (seen(group_of r := True)) fps p x"
proof
  assume "fresh m seen (r # fps) p x"
  then obtain r' where r': "r' \<in> set (r # fps)" "\<not> seen (group_of r')" "UserID r' = p"
      "x = Json (canonical m r')"
    unfolding fresh_def by blast
  show "(UserID r = p \<and> x = Json (canonical m r)) \<or> fresh m (seen(group_of r := True)) fps p x"
  proof (cases "group_of r' = group_of r")
    case True
    then have "canonical m r' = canonical m r" by (rule canonical_group)
    moreover from True have "UserID r' = UserID r" by (simp add: group_of_def)
    ultimately show ?thesis using r' by simp
  next
    case False
    then have "r' \<in> set fps" using r' by auto
    then have "fresh m (seen(group_of r := True)) fps p x"
      unfolding fresh_def using r' False by auto
    then show ?thesis ..
  qed
next
  assume "(UserID r = p \<and> x = Json (canonical m r)) \<or> fresh m (seen(group_of r := True)) fps p x"
  then show "fresh m seen (r # fps) p x"
  proof
    assume "UserID r = p \<and> x = Json (canonical m r)"
    then show ?thesis unfolding fresh_def using assms by auto
  next
    assume "fresh m (seen(group_of r := True)) fps p x"
    then obtain r' where "r' \<in> set fps" "\<not> (seen(group_of r := True)) (group_of r')" "UserID r' = p"
      "x = Json (canonical m r')"
      unfolding fresh_def by blast
    then show ?thesis unfolding fresh_def by (auto split: if_splits)
  qed
qed

lemma write_groups_ok:
  assumes "\<forall>r\<in>set fps. timestamp_ok (at_group m (group_of r))"
  shows "\<exists>c'. write_groups m seen c fps = Inr c' \<and>
           (\<forall>p x. map_of (c' p) x =
              (if fresh m seen fps p x then Some (- CreatedAt (unmarshalled x))
               else map_of (c p) x)) \<and>
           (\<forall>p. distinct (map fst (c p)) \<longrightarrow> distinct (map fst (c' p)))"
  using assms
proof (induction fps arbitrary: seen c)
  case Nil
  show ?case by (simp add: fresh_Nil)
next
  case (Cons r fps)
  have rest: "\<forall>r\<in>set fps. timestamp_ok (at_group m (group_of r))" using Cons.prems by simp
  have ok: "timestamp_ok (at_group m (group_of r))" using Cons.prems by simp
  show ?case
  proof (cases "seen (group_of r)")
    case True
    then have "write_groups m seen c (r # fps) = write_groups m seen c fps" by simp
    with Cons.IH[OF rest, of seen c] True show ?thesis by (simp add: fresh_seen)
  next
    case False
    let ?seen = "seen(group_of r := True)"
    let ?c = "ZADD c (UserID r) (- at_group m (group_of r)) (Json (canonical m r))"
    have eq: "write_groups m seen c (r # fps) = write_groups m ?seen ?c fps"
      using False ok
      by (simp add: json_Marshal_def marshalable_ok score_ok canonical_def Let_def)
    from Cons.IH[OF rest, of ?seen ?c] obtain c' where
      c': "write_groups m ?seen ?c fps = Inr c'"
      and mp: "\<And>p x. map_of (c' p) x =
              (if fresh m ?seen fps p x then Some (- CreatedAt (unmarshalled x))
               else map_of (?c p) x)"
      and ds: "\<And>p. distinct (map fst (?c p)) \<Longrightarrow> distinct (map fst (c' p))"
      by blast
    have "map_of (c' p) x =
              (if fresh m seen (r # fps) p x then Some (- CreatedAt (unmarshalled x))
               else map_of (c p) x)" for p x
      unfolding mp[of p x] fresh_unseen[of seen r m fps p x, OF False] map_of_ZADD
      by (simp add: canonical_def unmarshalled_Json)
    moreover have "distinct (map fst (c p)) \<longrightarrow> distinct (map fst (c' p))" for p
      using ds[of p] distinct_ZADD[of c p] by blast
    ultimately show ?thesis using eq c' by simp
  qed
qed

lemma fresh_rows:
  assumes "\<forall>r\<in>set rows. timestamp_ok (CreatedAt r)"
  shows "fresh (scan_rows Map.empty rows) (\<lambda>_. False) rows p x \<longleftrightarrow>
           x \<in> canonical_member rows p ` visitors rows p"
proof -
  have c: "canonical (scan_rows Map.empty rows) r = unmarshalled (canonical_member rows (UserID r) (OwnerID r))"
    if "r \<in> set rows" for r
  proof -
    from that have "OwnerID r \<in> visitors rows (UserID r)" by (auto simp: visitors_def)
    from scan_rows_last_visit[OF assms this] show ?thesis
      by (simp add: canonical_def canonical_member_def unmarshalled_Json group_of_def)
  qed
  show ?thesis
  proof
    assume "fresh (scan_rows Map.empty rows) (\<lambda>_. False) rows p x"
    then obtain r where r: "r \<in> set rows" "UserID r = p" "x = Json (canonical (scan_rows Map.empty rows) r)"
      unfolding fresh_def by blast
    then have "x = canonical_member rows p (OwnerID r)"
      using c[OF r(1)] by (simp add: canonical_member_def unmarshalled_Json)
    moreover from r have "OwnerID r \<in> visitors rows p" by (auto simp: visitors_def)
    ultimately show "x \<in> canonical_member rows p ` visitors rows p" by blast
  next
    assume "x \<in> canonical_member rows p ` visitors rows p"
    then obtain r where r: "r \<in> set rows" "UserID r = p" "x = canonical_member rows p (OwnerID r)"
      by (auto simp: visitors_def)
    then have "x = Json (canonical (scan_rows Map.empty rows) r)"
      using c[OF r(1)] by (simp add: canonical_member_def unmarshalled_Json)
    with r show "fresh (scan_rows Map.empty rows) (\<lambda>_. False) rows p x"
      unfolding fresh_def by blast
  qed
qed

lemma InitializeFootprints_scores:
  assumes "\<forall>r\<in>set rows. timestamp_ok (CreatedAt r)"
  shows "\<exists>c'. InitializeFootprints rows c = Inr c' \<and>
           (\<forall>p x. ZSCORE (c' p) x =
              (if x \<in> canonical_member rows p ` visitors rows p
               then Some (- CreatedAt (unmarshalled x)) else ZSCORE (c p) x)) \<and>
           (\<forall>p. distinct (map fst (c p)) \<longrightarrow> distinct (map fst (c' p)))"
proof -
  have "\<forall>r\<in>set rows. timestamp_ok (at_group (scan_rows Map.empty rows) (group_of r))"
  proof
    fix r assume r: "r \<in> set rows"
    then have v: "OwnerID r \<in> visitors rows (UserID r)" by (auto simp: visitors_def)
    show "timestamp_ok (at_group (scan_rows Map.empty rows) (group_of r))"
      using scan_rows_last_visit[OF assms v] last_visit_ok[OF assms v]
      by (simp add: group_of_def)
  qed
  from write_groups_ok[OF this, of "\<lambda>_. False" c] show ?thesis
    unfolding InitializeFootprints_def ZSCORE_def fresh_rows[OF assms] .
qed

lemma members_by_score:
  "fst ` set z = {x. ZSCORE z x \<noteq> None}"
  unfolding ZSCORE_def by (metis (no_types) dom_def dom_map_of_conv_image_fst)


lemma canonical_member_owner: "OwnerID (unmarshalled (canonical_member rows p v)) = v"
  by (simp add: canonical_member_def unmarshalled_Json)

section \<open>The rank order of a range\<close>

lemma sorted_ranked:
  assumes "\<forall>(x, s)\<in>set z. s = k x"
  shows "sorted (map (\<lambda>x. (k x, bytes x)) (ranked z))"
proof -
  have "sorted (map (\<lambda>(x, s). (s, bytes x)) (sort_key (\<lambda>(x, s). (s, bytes x)) z))"
    by (rule sorted_sort_key)
  moreover have "map (\<lambda>(x, s). (s, bytes x)) (sort_key (\<lambda>(x, s). (s, bytes x)) z) =
      map (\<lambda>x. (k x, bytes x)) (ranked z)"
    unfolding ranked_def map_map
    by (rule map_cong) (use assms in auto)
  ultimately show ?thesis by simp
qed

lemma sorted_ZRANGE:
  assumes "\<forall>(x, s)\<in>set z. s = k x"
  shows "sorted (map (\<lambda>x. (k x, bytes x)) (ZRANGE z start stop))"
proof -
  obtain i n where "ZRANGE z start stop = take n (drop i (ranked z))"
    using ZRANGE_slice by blast
  then have "map (\<lambda>x. (k x, bytes x)) (ZRANGE z start stop) =
      take n (drop i (map (\<lambda>x. (k x, bytes x)) (ranked z)))"
    by (simp add: take_map drop_map)
  with sorted_ranked[OF assms] show ?thesis
    by (simp add: sorted_wrt_take sorted_wrt_drop)
qed

lemma distinct_ZRANGE_map:
  assumes "distinct (map f (ranked z))"
  shows "distinct (map f (ZRANGE z start stop))"
proof -
  obtain i n where "ZRANGE z start stop = take n (drop i (ranked z))"
    using ZRANGE_slice by blast
  then have "map f (ZRANGE z start stop) = take n (drop i (map f (ranked z)))"
    by (simp add: take_map drop_map)
  with assms show ?thesis by (simp add: distinct_take distinct_drop)
qed

lemma FetchFootprintsCache_map:
  "FetchFootprintsCache c userId limit =
     map (\<lambda>x. (unmarshalled x)\<lparr>CreatedAt := date_JST (CreatedAt (unmarshalled x))\<rparr>)
       (ZRANGE (c userId) 0 (limit - 1))"
  by (simp add: FetchFootprintsCache_def unmarshalled_def Let_def)

lemma descending_of_sorted:
  fixes f :: "'a \<Rightarrow> int"
  assumes "sorted (map (\<lambda>x. (- f x, g x)) xs)"
  shows "sorted_wrt (\<lambda>a b. f b \<le> f a) xs"
  using assms by (induction xs) (fastforce simp: less_eq_prod_def)+

section \<open>Aggregation: \<^verbatim>\<open>InitializeFootprints\<close>\<close>

lemma InitializeFootprints_fresh_view:
  assumes "\<forall>r\<in>set rows. timestamp_ok (CreatedAt r)" and "c p = []"
    and "InitializeFootprints rows c = Inr c'"
  shows "set (ZRANGE (c' p) 0 (- 1)) = canonical_member rows p ` visitors rows p"
    and "distinct (ZRANGE (c' p) 0 (- 1))"
    and "distinct (map OwnerID (view c' p))"
    and "\<forall>(x, s)\<in>set (c' p). s = - UnixNano (UpdatedAt (unmarshalled x))"
proof -
  from InitializeFootprints_scores[OF assms(1), of c] assms(3) have
    sc: "\<And>x. ZSCORE (c' p) x =
              (if x \<in> canonical_member rows p ` visitors rows p
               then Some (- CreatedAt (unmarshalled x)) else ZSCORE (c p) x)"
    and ds: "distinct (map fst (c p)) \<Longrightarrow> distinct (map fst (c' p))"
    by auto
  show st: "set (ZRANGE (c' p) 0 (- 1)) = canonical_member rows p ` visitors rows p"
    unfolding ZRANGE_all set_ranked members_by_score sc
    by (auto simp: ZSCORE_def assms(2))
  show dr: "distinct (ZRANGE (c' p) 0 (- 1))"
    unfolding ZRANGE_all using ds by (simp add: assms(2) distinct_ranked)
  have "inj_on (\<lambda>x. OwnerID (unmarshalled x)) (set (ZRANGE (c' p) 0 (- 1)))"
    unfolding st by (rule inj_onI) (auto simp: canonical_member_owner)
  with dr show "distinct (map OwnerID (view c' p))"
    by (simp add: view_def distinct_map comp_def)
  show "\<forall>(x, s)\<in>set (c' p). s = - UnixNano (UpdatedAt (unmarshalled x))"
  proof (clarify)
    fix x s assume xs: "(x, s) \<in> set (c' p)"
    from ds have "distinct (map fst (c' p))" by (simp add: assms(2))
    with xs have "ZSCORE (c' p) x = Some s" by (simp add: ZSCORE_def)
    with sc[of x] obtain v where v: "v \<in> visitors rows p" "x = canonical_member rows p v"
      and s: "s = - CreatedAt (unmarshalled x)"
      by (auto simp: ZSCORE_def assms(2) split: if_splits)
    from last_visit_ok[OF assms(1) v(1)] have "UnixNano (last_visit rows p v) = last_visit rows p v"
      by (rule UnixNano_ok)
    with v s show "s = - UnixNano (UpdatedAt (unmarshalled x))"
      by (simp add: canonical_member_def unmarshalled_Json)
  qed
qed




text \<open>
  C7, as the code has it. \<^verbatim>\<open>InitializeFootprints\<close> sends no command that removes anything:
  it only adds. After it has run on any cache, the sorted set of every profile holds the
  canonical member of each recorded visitor, scored by the negated last visit, and every
  other member that was there before, with the score it had. Only where the set of a
  profile was empty before the run does its view hold nothing but entries derived from the
  records.
\<close>

theorem InitializeFootprints_keeps_prior_members:
  assumes "\<forall>r\<in>set rows. timestamp_ok (CreatedAt r)"
  shows "\<exists>c'. InitializeFootprints rows c = Inr c' \<and>
           (\<forall>p x. ZSCORE (c' p) x =
              (if x \<in> canonical_member rows p ` visitors rows p
               then Some (- CreatedAt (unmarshalled x)) else ZSCORE (c p) x)) \<and>
           (\<forall>p. c p = [] \<longrightarrow>
              set (ZRANGE (c' p) 0 (- 1)) = canonical_member rows p ` visitors rows p)"
proof -
  from InitializeFootprints_scores[OF assms, of c] obtain c' where
    c': "InitializeFootprints rows c = Inr c'"
    and sc: "\<forall>p x. ZSCORE (c' p) x =
              (if x \<in> canonical_member rows p ` visitors rows p
               then Some (- CreatedAt (unmarshalled x)) else ZSCORE (c p) x)"
    by blast
  have "\<forall>p. c p = [] \<longrightarrow>
      set (ZRANGE (c' p) 0 (- 1)) = canonical_member rows p ` visitors rows p"
    using InitializeFootprints_fresh_view(1)[OF assms _ c'] by blast
  with c' sc show ?thesis by blast
qed

theorem InitializeFootprints_keeps_prior_members_witness:
  "timestamp_ok 1443225600000000000
   \<and> (\<exists>c'. InitializeFootprints [scanned 1 2 1443225600000000000]
              (ZADD flushall 1 (- 1443139200000000000)
                 (Json \<lparr>UserID = 1, OwnerID = 9, CreatedAt = 1443139200000000000,
                        UpdatedAt = 1443139200000000000\<rparr>)) = Inr c'
         \<and> ZSCORE (c' 1)
              (Json \<lparr>UserID = 1, OwnerID = 9, CreatedAt = 1443139200000000000,
                     UpdatedAt = 1443139200000000000\<rparr>) = Some (- 1443139200000000000)
         \<and> ZSCORE (c' 1)
              (Json \<lparr>UserID = 1, OwnerID = 2, CreatedAt = 1443225600000000000,
                     UpdatedAt = 1443225600000000000\<rparr>) = Some (- 1443225600000000000)
         \<and> set (ZRANGE (c' 2) 0 (- 1)) = {})"
proof -
  let ?rows = "[scanned 1 2 1443225600000000000]"
  let ?stale = "Json \<lparr>UserID = 1, OwnerID = 9, CreatedAt = 1443139200000000000,
                        UpdatedAt = 1443139200000000000\<rparr>"
  let ?c = "ZADD flushall 1 (- 1443139200000000000) ?stale"
  have t: "timestamp_ok 1443225600000000000" by (simp add: timestamp_ok_def)
  then have ok: "\<forall>r\<in>set ?rows. timestamp_ok (CreatedAt r)" by (simp add: scanned_def)
  have vs: "visitors ?rows 1 = {2}" "visitors ?rows 2 = {}"
    by (simp_all add: visitors_def scanned_def)
  have lv: "last_visit ?rows 1 2 = 1443225600000000000"
    by (simp add: last_visit_def scanned_def)
  from InitializeFootprints_keeps_prior_members[OF ok, of ?c] obtain c' where
    c': "InitializeFootprints ?rows ?c = Inr c'"
    and sc: "\<And>p x. ZSCORE (c' p) x =
              (if x \<in> canonical_member ?rows p ` visitors ?rows p
               then Some (- CreatedAt (unmarshalled x)) else ZSCORE (?c p) x)"
    and em: "\<And>p. ?c p = [] \<Longrightarrow>
              set (ZRANGE (c' p) 0 (- 1)) = canonical_member ?rows p ` visitors ?rows p"
    by blast
  have "ZSCORE (c' 1) ?stale = Some (- 1443139200000000000)"
    unfolding sc vs by (simp add: canonical_member_def lv ZSCORE_def ZADD_def flushall_def)
  moreover have "ZSCORE (c' 1)
              (Json \<lparr>UserID = 1, OwnerID = 2, CreatedAt = 1443225600000000000,
                     UpdatedAt = 1443225600000000000\<rparr>) = Some (- 1443225600000000000)"
    unfolding sc vs by (simp add: canonical_member_def lv unmarshalled_Json)
  moreover have "set (ZRANGE (c' 2) 0 (- 1)) = {}"
    using em[of 2] unfolding vs by (simp add: ZADD_def flushall_def)
  ultimately show ?thesis using t c' by blast
qed

text \<open>
  The claim C7 as the specification states it fails: with the entry of visitor 9 in the
  cache of profile 1 and the single record (1, 2, 2015-09-26T00:00:00Z) in the table, the
  view of profile 1 after the run still holds visitor 9, whom no record names.
\<close>

theorem InitializeFootprints_stale_visitor_counterexample:
  "map_sum id (\<lambda>c. map visit (view c 1))
     (InitializeFootprints [scanned 1 2 1443225600000000000]
        (ZADD flushall 1 (- 1443139200000000000)
           (Json \<lparr>UserID = 1, OwnerID = 9, CreatedAt = 1443139200000000000,
                  UpdatedAt = 1443139200000000000\<rparr>)))
   = Inr [(2, 1443225600000000000), (9, 1443139200000000000)]
   \<and> visitors [scanned 1 2 1443225600000000000] 1 = {2}"
  by code_simp

section \<open>The query: \<^verbatim>\<open>FetchFootprintsCache\<close>\<close>

text \<open>
  C4, as the code has it. \<^verbatim>\<open>FetchFootprintsCache\<close> reads the ranks \<open>0\<close> to \<open>limit - 1\<close> and
  orders nothing itself. On a view whose members are scored by the negation of their last
  visit and hold one entry for each visitor (the state \<^verbatim>\<open>InitializeFootprints\<close> leaves on a
  flushed cache, by \<open>InitializeFootprints_fresh_view\<close>), and for a limit of at least 1, it
  answers at most \<open>limit\<close> entries and at
  most as many as there are visitors in the view; the last visits descend, not strictly;
  entries of equal last visit come in the ascending order of the bytes of their stored
  members, not of the visitor's number; and no visitor comes twice. With the limit 0 it
  answers the whole view.
\<close>

theorem FetchFootprintsCache_rank_order:
  assumes "\<forall>(x, s)\<in>set (c userId). s = - UnixNano (UpdatedAt (unmarshalled x))"
    and "distinct (map OwnerID (view c userId))"
  shows "(1 \<le> limit \<longrightarrow> length (FetchFootprintsCache c userId limit) \<le> nat limit)
    \<and> length (FetchFootprintsCache c userId limit) \<le> card (set (map OwnerID (view c userId)))
    \<and> sorted_wrt (\<lambda>a b. UnixNano (UpdatedAt b) \<le> UnixNano (UpdatedAt a))
         (FetchFootprintsCache c userId limit)
    \<and> sorted (map (\<lambda>x. (- UnixNano (UpdatedAt (unmarshalled x)), bytes x))
         (ZRANGE (c userId) 0 (limit - 1)))
    \<and> distinct (map OwnerID (FetchFootprintsCache c userId limit))
    \<and> length (FetchFootprintsCache c userId 0) = length (c userId)"
proof -
  let ?ms = "ZRANGE (c userId) 0 (limit - 1)"
  let ?k = "\<lambda>x. - UnixNano (UpdatedAt (unmarshalled x))"
  have len: "length (FetchFootprintsCache c userId limit) = length ?ms"
    by (simp add: FetchFootprintsCache_map)
  have a: "1 \<le> limit \<longrightarrow> length (FetchFootprintsCache c userId limit) \<le> nat limit"
    by (simp add: len length_ZRANGE_limit)
  have "card (set (map OwnerID (view c userId))) = length (map OwnerID (view c userId))"
    using assms(2) by (rule distinct_card)
  also have "\<dots> = length (c userId)"
    by (simp add: view_def ZRANGE_all length_ranked)
  finally have b:
    "length (FetchFootprintsCache c userId limit) \<le> card (set (map OwnerID (view c userId)))"
    using length_ZRANGE_le[of "c userId" 0 "limit - 1"] by (simp add: len)
  have d: "sorted (map (\<lambda>x. (?k x, bytes x)) ?ms)"
    using assms(1) by (rule sorted_ZRANGE)
  then have "sorted_wrt
      (\<lambda>a b. UnixNano (UpdatedAt (unmarshalled b)) \<le> UnixNano (UpdatedAt (unmarshalled a))) ?ms"
    by (rule descending_of_sorted)
  then have e: "sorted_wrt (\<lambda>a b. UnixNano (UpdatedAt b) \<le> UnixNano (UpdatedAt a))
         (FetchFootprintsCache c userId limit)"
    by (simp add: FetchFootprintsCache_map sorted_wrt_map)
  have "distinct (map (\<lambda>x. OwnerID (unmarshalled x)) (ranked (c userId)))"
    using assms(2) by (simp add: view_def ZRANGE_all comp_def)
  then have "distinct (map (\<lambda>x. OwnerID (unmarshalled x)) ?ms)"
    by (rule distinct_ZRANGE_map)
  then have f: "distinct (map OwnerID (FetchFootprintsCache c userId limit))"
    by (simp add: FetchFootprintsCache_map comp_def)
  have g: "length (FetchFootprintsCache c userId 0) = length (c userId)"
    by (simp add: FetchFootprintsCache_map ZRANGE_all length_ranked)
  from a b d e f g show ?thesis by blast
qed

theorem FetchFootprintsCache_rank_order_witness:
  "list_all (\<lambda>(x, s). s = - UnixNano (UpdatedAt (unmarshalled x)))
     (ZADD (ZADD flushall 1 (- 1443225600000000000)
              (Json \<lparr>UserID = 1, OwnerID = 9, CreatedAt = 1443225600000000000,
                     UpdatedAt = 1443225600000000000\<rparr>))
        1 (- 1443225600000000000)
        (Json \<lparr>UserID = 1, OwnerID = 10, CreatedAt = 1443225600000000000,
               UpdatedAt = 1443225600000000000\<rparr>) 1)
   \<and> length (FetchFootprintsCache
        (ZADD (ZADD flushall 1 (- 1443225600000000000)
              (Json \<lparr>UserID = 1, OwnerID = 9, CreatedAt = 1443225600000000000,
                     UpdatedAt = 1443225600000000000\<rparr>))
        1 (- 1443225600000000000)
        (Json \<lparr>UserID = 1, OwnerID = 10, CreatedAt = 1443225600000000000,
               UpdatedAt = 1443225600000000000\<rparr>)) 1 1) \<le> 1
   \<and> distinct (map OwnerID (FetchFootprintsCache
        (ZADD (ZADD flushall 1 (- 1443225600000000000)
              (Json \<lparr>UserID = 1, OwnerID = 9, CreatedAt = 1443225600000000000,
                     UpdatedAt = 1443225600000000000\<rparr>))
        1 (- 1443225600000000000)
        (Json \<lparr>UserID = 1, OwnerID = 10, CreatedAt = 1443225600000000000,
               UpdatedAt = 1443225600000000000\<rparr>)) 1 1))"
proof -
  let ?c = "ZADD (ZADD flushall 1 (- 1443225600000000000)
              (Json \<lparr>UserID = 1, OwnerID = 9, CreatedAt = 1443225600000000000,
                     UpdatedAt = 1443225600000000000\<rparr>))
        1 (- 1443225600000000000)
        (Json \<lparr>UserID = 1, OwnerID = 10, CreatedAt = 1443225600000000000,
               UpdatedAt = 1443225600000000000\<rparr>)"
  have h1: "\<forall>(x, s)\<in>set (?c 1). s = - UnixNano (UpdatedAt (unmarshalled x))"
    by code_simp
  have h2: "distinct (map OwnerID (view ?c 1))"
    by code_simp
  from FetchFootprintsCache_rank_order[OF h1 h2, of 1]
  have "length (FetchFootprintsCache ?c 1 1) \<le> 1"
    and "distinct (map OwnerID (FetchFootprintsCache ?c 1 1))"
    by simp_all
  moreover from h1 have "list_all (\<lambda>(x, s). s = - UnixNano (UpdatedAt (unmarshalled x))) (?c 1)"
    by (simp add: list_all_iff)
  ultimately show ?thesis by blast
qed

text \<open>
  The claim C4 as the specification states it fails. Visitors 9 and 10 see profile 1 in
  the same second: the query answers visitor 10 before visitor 9, with equal last visits,
  so the sequence does not descend strictly and the tie is not broken by the ascending
  visitor. With the limit 0 the range is \<^verbatim>\<open>ZRANGE key 0 -1\<close>, the whole set: two entries.
\<close>

theorem FetchFootprintsCache_order_counterexample:
  "map_sum id (\<lambda>c. map visit (FetchFootprintsCache c 1 10))
     (InitializeFootprints
        [scanned 1 9 1443225600000000000, scanned 1 10 1443225600000000000] flushall)
   = Inr [(10, 1443225600000000000), (9, 1443225600000000000)]
   \<and> map_sum id (\<lambda>c. length (FetchFootprintsCache c 1 0))
     (InitializeFootprints
        [scanned 1 9 1443225600000000000, scanned 1 10 1443225600000000000] flushall)
   = Inr 2"
  by code_simp




section \<open>Write-through: \<^verbatim>\<open>AddFootprintCache\<close>\<close>

text \<open>
  C2 does not hold of the code. \<^verbatim>\<open>AddFootprintCache\<close> looks for the latest entry of the
  visitor, but it only adds the new member: the entry it found stays, and the new one
  carries \<^verbatim>\<open>time.Unix(maxCreatedAt, 0)\<close>, nanoseconds read as seconds, as its last visit.
  Two visits of visitor 2 to profile 1, one and two seconds after the epoch, leave two
  entries of visitor 2 in the view, neither with a last visit that was observed. With a
  timestamp of 2015 the year of that last visit is beyond 9999, \<^verbatim>\<open>json.Marshal\<close> fails and
  the process ends in \<^verbatim>\<open>log.Fatalf\<close> before anything is written.
\<close>

theorem AddFootprintCache_duplicates_visitor:
  "map_sum id (\<lambda>c. map (\<lambda>fp. (OwnerID fp, CreatedAt fp, UpdatedAt fp)) (view c 1))
     (applyVisits flushall
        [\<lparr>UserID = 1, OwnerID = 2, CreatedAt = 1000000000, UpdatedAt = 1000000000\<rparr>,
         \<lparr>UserID = 1, OwnerID = 2, CreatedAt = 2000000000, UpdatedAt = 2000000000\<rparr>])
   = Inr [(2, 2000000000, 2000000000000000000), (2, 1000000000, 1000000000000000000)]
   \<and> map_sum id (\<lambda>c. c 1)
     (AddFootprintCache
        \<lparr>UserID = 1, OwnerID = 2, CreatedAt = 1443225600000000000,
          UpdatedAt = 1443225600000000000\<rparr> flushall)
   = Inl (Fatal ''Failed to marshalize footprint'')"
  by code_simp

text \<open>
  C3 does not hold of the code, by the same defect. For the two records of visitor 2 on
  profile 1, applied in the order of their timestamps, the write-through view holds two
  canonical visits where the rebuilt view holds one, and none of the two is the rebuilt
  one; the stored \<^verbatim>\<open>CreatedAt\<close> of the first visit stays in the view as well. For a record
  of 2015 the write-through ends the process and the rebuild does not.
\<close>

theorem applyVisits_differs_from_InitializeFootprints:
  "map_sum id (\<lambda>c. set (map visit (view c 1)))
     (applyVisits flushall [scanned 1 2 1000000000, scanned 1 2 2000000000])
   \<noteq> map_sum id (\<lambda>c. set (map visit (view c 1)))
     (InitializeFootprints [scanned 1 2 1000000000, scanned 1 2 2000000000] flushall)
   \<and> map_sum id (\<lambda>c. map visit (view c 1))
     (applyVisits flushall [scanned 1 2 1000000000, scanned 1 2 2000000000])
   = Inr [(2, 2000000000000000000), (2, 1000000000000000000)]
   \<and> map_sum id (\<lambda>c. map (\<lambda>fp. (OwnerID fp, CreatedAt fp)) (view c 1))
     (applyVisits flushall [scanned 1 2 1000000000, scanned 1 2 2000000000])
   = Inr [(2, 2000000000), (2, 1000000000)]
   \<and> map_sum id (\<lambda>c. map visit (view c 1))
     (InitializeFootprints [scanned 1 2 1000000000, scanned 1 2 2000000000] flushall)
   = Inr [(2, 2000000000)]
   \<and> map_sum id (\<lambda>c. map visit (view c 1))
     (applyVisits flushall [scanned 1 2 1443225600000000000])
   = Inl (Fatal ''Failed to marshalize footprint'')
   \<and> map_sum id (\<lambda>c. map visit (view c 1))
     (InitializeFootprints [scanned 1 2 1443225600000000000] flushall)
   = Inr [(2, 1443225600000000000)]"
  by code_simp

section \<open>Recovery\<close>

text \<open>
  C6, as the code has it. \<^verbatim>\<open>GetInitialize\<close> replays the append-only file exactly when the
  variable \<^verbatim>\<open>ISUCON5_REDIS_LOAD_AOF\<close> is not set or empty: the replay is the default. With
  any other value it leaves the cache as it is. It never rebuilds the cache from the table.
  The replay sends the commands of the file in their order, on top of what the cache holds.
\<close>

theorem GetInitialize_replays_by_default:
  "(getenv ''ISUCON5_REDIS_LOAD_AOF'' = [] \<longrightarrow> GetInitialize getenv h = LoadRedisAof h)
   \<and> (getenv ''ISUCON5_REDIS_LOAD_AOF'' \<noteq> [] \<longrightarrow> GetInitialize getenv h = Inr h)
   \<and> (aof h = Some log \<and> \<not> pipe_fails h \<longrightarrow>
        LoadRedisAof h = Inr (h\<lparr>redis := foldl apply_command (redis h) log\<rparr>))"
proof -
  have "aof h = Some log \<and> \<not> pipe_fails h \<longrightarrow>
        LoadRedisAof h = Inr (h\<lparr>redis := foldl apply_command (redis h) log\<rparr>)"
    by (simp add: LoadRedisAof_def replay_def)
  then show ?thesis by (simp add: GetInitialize_def)
qed

theorem GetInitialize_replays_by_default_witness:
  "map_sum id (\<lambda>h. redis h 1)
     (GetInitialize (\<lambda>_. [])
        \<lparr>redis = flushall,
          aof = Some [Zadd 1 (- 1443225600000000000)
                        (Json \<lparr>UserID = 1, OwnerID = 2, CreatedAt = 1443225600000000000,
                               UpdatedAt = 1443225600000000000\<rparr>)],
          flushall_fails = False, pipe_fails = False\<rparr>)
   = map_sum id (\<lambda>h. redis h 1)
     (LoadRedisAof
        \<lparr>redis = flushall,
          aof = Some [Zadd 1 (- 1443225600000000000)
                        (Json \<lparr>UserID = 1, OwnerID = 2, CreatedAt = 1443225600000000000,
                               UpdatedAt = 1443225600000000000\<rparr>)],
          flushall_fails = False, pipe_fails = False\<rparr>)"
  using GetInitialize_replays_by_default
    [of "\<lambda>_. []"
        "\<lparr>redis = flushall,
          aof = Some [Zadd 1 (- 1443225600000000000)
                        (Json \<lparr>UserID = 1, OwnerID = 2, CreatedAt = 1443225600000000000,
                               UpdatedAt = 1443225600000000000\<rparr>)],
          flushall_fails = False, pipe_fails = False\<rparr>"]
  by simp

text \<open>
  The claim C6 as the specification states it fails. With the variable not set and one
  command in the append-only file, \<^verbatim>\<open>GetInitialize\<close> replays the file: the cache of profile
  1, empty before, holds the member of the file. With the variable set to \<^verbatim>\<open>1\<close> it does not.
\<close>

theorem GetInitialize_default_counterexample:
  "map_sum id (\<lambda>h. redis h 1)
     (GetInitialize (\<lambda>_. [])
        \<lparr>redis = flushall,
          aof = Some [Zadd 1 (- 1443225600000000000)
                        (Json \<lparr>UserID = 1, OwnerID = 2, CreatedAt = 1443225600000000000,
                               UpdatedAt = 1443225600000000000\<rparr>)],
          flushall_fails = False, pipe_fails = False\<rparr>)
   = Inr [(Json \<lparr>UserID = 1, OwnerID = 2, CreatedAt = 1443225600000000000,
                 UpdatedAt = 1443225600000000000\<rparr>, - 1443225600000000000)]
   \<and> map_sum id (\<lambda>h. redis h 1)
     (GetInitialize (\<lambda>v. if v = ''ISUCON5_REDIS_LOAD_AOF'' then ''1'' else [])
        \<lparr>redis = flushall,
          aof = Some [Zadd 1 (- 1443225600000000000)
                        (Json \<lparr>UserID = 1, OwnerID = 2, CreatedAt = 1443225600000000000,
                               UpdatedAt = 1443225600000000000\<rparr>)],
          flushall_fails = False, pipe_fails = False\<rparr>)
   = Inr []"
  by code_simp

text \<open>
  C8. When the replay is chosen and the append-only file is absent, the process ends with
  a fatal error: both versions of \<^verbatim>\<open>LoadRedisAof\<close>, and \<^verbatim>\<open>GetInitialize\<close> when it calls it,
  return no state to continue with.
\<close>

theorem LoadRedisAof_absent_Fatal:
  "aof h = None \<Longrightarrow>
     seed_LoadRedisAof h =
       Inl (Fatal (if flushall_fails h then ''Failed to flushall redis caches.''
                   else ''appendonly.aof isn't exists.''))
     \<and> LoadRedisAof h = Inl (Fatal ''appendonly.aof isn't exists.'')
     \<and> (getenv ''ISUCON5_REDIS_LOAD_AOF'' = [] \<longrightarrow>
          GetInitialize getenv h = Inl (Fatal ''appendonly.aof isn't exists.''))"
proof -
  assume absent: "aof h = None"
  then have seed: "seed_LoadRedisAof h =
       Inl (Fatal (if flushall_fails h then ''Failed to flushall redis caches.''
                   else ''appendonly.aof isn't exists.''))"
    by (simp add: seed_LoadRedisAof_def)
  from absent have app: "LoadRedisAof h = Inl (Fatal ''appendonly.aof isn't exists.'')"
    by (simp add: LoadRedisAof_def)
  then have "getenv ''ISUCON5_REDIS_LOAD_AOF'' = [] \<longrightarrow>
          GetInitialize getenv h = Inl (Fatal ''appendonly.aof isn't exists.'')"
    by (simp add: GetInitialize_def)
  with seed app show ?thesis by blast
qed

theorem LoadRedisAof_absent_Fatal_witness:
  "aof \<lparr>redis = flushall, aof = None, flushall_fails = False, pipe_fails = False\<rparr> = None
   \<and> seed_LoadRedisAof \<lparr>redis = flushall, aof = None, flushall_fails = False, pipe_fails = False\<rparr>
       = Inl (Fatal ''appendonly.aof isn't exists.'')
   \<and> LoadRedisAof \<lparr>redis = flushall, aof = None, flushall_fails = False, pipe_fails = False\<rparr>
       = Inl (Fatal ''appendonly.aof isn't exists.'')
   \<and> GetInitialize (\<lambda>_. [])
         \<lparr>redis = flushall, aof = None, flushall_fails = False, pipe_fails = False\<rparr>
       = Inl (Fatal ''appendonly.aof isn't exists.'')"
  using LoadRedisAof_absent_Fatal
    [of "\<lparr>redis = flushall, aof = None, flushall_fails = False, pipe_fails = False\<rparr>" "\<lambda>_. []"]
  by simp

end
